theory Spec2Isabelle
  imports Main "HOL-Library.AList"
begin

section \<open>Values, dictionaries and errors\<close>

text \<open>
  The three managers (\<^verbatim>\<open>UserManager\<close>, \<^verbatim>\<open>TeamManager\<close>, \<^verbatim>\<open>ProjectBoardManager\<close>) keep
  one JSON document each: a dictionary from identifier to record. An operation loads the
  document, checks, changes the dictionary in memory and dumps it. The model passes the
  loaded dictionary in and returns, with the response or the exception, the dictionary that
  the call leaves as the document: the one it dumps, or the one it loaded when it raises,
  which every operation does before it writes. The bytes of the file are not modelled: the
  document that a call dumps is the document that the next call loads.

  A Python dictionary keeps its keys in insertion order, and \<^verbatim>\<open>update_task_status\<close> depends
  on that order, so a dictionary is an association list with distinct keys; \<^verbatim>\<open>d[k] = v\<close> is
  \<^const>\<open>AList.update\<close> (replace in place, or append a new key) and \<^verbatim>\<open>len(d)\<close> is the length.

  A request is given by the members \<^verbatim>\<open>json.loads\<close> finds in it, typed as the docstrings of
  the base classes type them: identifiers, names and descriptions are strings, \<open>None\<close> when
  the member is missing; \<^verbatim>\<open>users\<close> is a list of strings; the \<^verbatim>\<open>user\<close> and \<^verbatim>\<open>team\<close> members
  of the update requests are dictionaries of strings. A string is the list of its code
  points. \<^verbatim>\<open>datetime.datetime.now().isoformat()\<close> is the argument \<open>now\<close>. A response is
  given by what it carries: the identifier, the displayed record or the list.

  \<^verbatim>\<open>get_user_teams\<close> and \<^verbatim>\<open>export_board\<close> change no collection and none of the properties
  below is about them; they are left out.
\<close>

type_synonym 'v dict = "(string \<times> 'v) list"

datatype error = ValueError string | KeyError string | TypeError

text \<open>
  Every method body is wrapped in \<^verbatim>\<open>try: ... except Exception: raise ValueError(traceback)\<close>,
  so the caller sees a \<^verbatim>\<open>ValueError\<close> in each case; the model keeps the exception that was
  caught.
\<close>

definition falsy :: "string option \<Rightarrow> bool" where
  \<comment> \<open>\<^verbatim>\<open>not x\<close> for \<^verbatim>\<open>x = d.get(k)\<close>: the member is missing or the empty string\<close>
  "falsy x = (case x of None \<Rightarrow> True | Some s \<Rightarrow> s = [])"

definition digit :: "nat \<Rightarrow> char" where
  "digit d = ''0123456789'' ! d"

fun str_nat :: "nat \<Rightarrow> string" where
  \<comment> \<open>\<^verbatim>\<open>str(n)\<close> for a natural number: its decimal digits\<close>
  "str_nat n = (if n < 10 then [digit n] else str_nat (n div 10) @ [digit (n mod 10)])"

declare str_nat.simps [simp del]

fun any_field_eq :: "string \<Rightarrow> 'v \<Rightarrow> 'v dict list \<Rightarrow> error + bool" where
  \<comment> \<open>\<^verbatim>\<open>any(r[k] == v for r in records)\<close>: stops at the first hit, raises at a record without \<open>k\<close>\<close>
  "any_field_eq k v [] = Inr False"
| "any_field_eq k v (r # rs) =
     (case map_of r k of
        None \<Rightarrow> Inl (KeyError k)
      | Some w \<Rightarrow> if w = v then Inr True else any_field_eq k v rs)"

definition dict_update :: "'v dict \<Rightarrow> 'v dict \<Rightarrow> 'v dict" where
  \<comment> \<open>\<^verbatim>\<open>d.update(other)\<close>: every key of \<open>other\<close> is assigned in turn\<close>
  "dict_update d other = fold (\<lambda>(k, v). AList.update k v) other d"

definition dict_eq :: "'v dict \<Rightarrow> 'v dict \<Rightarrow> bool" where
  \<comment> \<open>\<^verbatim>\<open>a == b\<close> on dictionaries: same size, and every key of \<open>a\<close> has the same value in \<open>b\<close>\<close>
  "dict_eq a b = (length a = length b \<and> list_all (\<lambda>(k, v). map_of b k = Some v) a)"

definition too_long :: "string \<Rightarrow> nat \<Rightarrow> string dict \<Rightarrow> bool" where
  \<comment> \<open>\<^verbatim>\<open>k in d and len(d[k]) > n\<close>\<close>
  "too_long k n d = (case map_of d k of None \<Rightarrow> False | Some s \<Rightarrow> length s > n)"

section \<open>UserManager\<close>

type_synonym user = "string dict"
type_synonym users = "user dict"

fun create_user :: "string \<Rightarrow> string option \<Rightarrow> string option \<Rightarrow> users \<Rightarrow> (error + string) \<times> users" where
  "create_user now (Some name) (Some display_name) users =
     (if name = [] \<or> display_name = [] then
        (Inl (ValueError ''Name and display name are required''), users)
      else if length name > 64 \<or> length display_name > 64 then
        (Inl (ValueError ''Name and display name must be 64 characters or less''), users)
      else
        (case any_field_eq ''name'' name (map snd users) of
           Inl e \<Rightarrow> (Inl e, users)
         | Inr True \<Rightarrow> (Inl (ValueError ''User name must be unique''), users)
         | Inr False \<Rightarrow>
             (let user_id = str_nat (length users + 1) in
              (Inr user_id,
               AList.update user_id
                 [(''name'', name), (''display_name'', display_name), (''creation_time'', now)]
                 users))))"
| "create_user now _ _ users = (Inl (ValueError ''Name and display name are required''), users)"


fun views :: "('r \<Rightarrow> error + 'a) \<Rightarrow> 'r list \<Rightarrow> error + 'a list" where
  \<comment> \<open>a list comprehension whose element expression may raise\<close>
  "views f [] = Inr []"
| "views f (r # rs) =
     (case f r of Inl e \<Rightarrow> Inl e | Inr a \<Rightarrow>
     (case views f rs of Inl e \<Rightarrow> Inl e | Inr as \<Rightarrow> Inr (a # as)))"



definition update_user :: "string option \<Rightarrow> string dict \<Rightarrow> users \<Rightarrow> (error + string) \<times> users" where
  "update_user user_id user_details users =
     (case user_id of
        None \<Rightarrow> (Inl (ValueError ''User ID is required''), users)
      | Some uid \<Rightarrow>
          if uid = [] then (Inl (ValueError ''User ID is required''), users)
          else if too_long ''name'' 64 user_details then
            (Inl (ValueError ''Name must be 64 characters or less''), users)
          else if too_long ''display_name'' 128 user_details then
            (Inl (ValueError ''Display name must be 128 characters or less''), users)
          else (case map_of users uid of
                  None \<Rightarrow> (Inl (ValueError ''User not found''), users)
                | Some user \<Rightarrow>
                    (Inr uid, AList.update uid (dict_update user user_details) users)))"

section \<open>TeamManager\<close>

text \<open>
  A team record holds strings and, under \<^verbatim>\<open>users\<close>, a list of strings. \<^verbatim>\<open>update_team\<close>
  merges the caller's dictionary into the record whatever its keys are, so the record is a
  dictionary and any key may come to hold a string.
\<close>

datatype tval = TStr string | TList "string list"

type_synonym team = "tval dict"
type_synonym teams = "team dict"

fun create_team ::
  "string \<Rightarrow> string option \<Rightarrow> string option \<Rightarrow> string option \<Rightarrow> teams \<Rightarrow> (error + string) \<times> teams" where
  "create_team now (Some name) (Some description) (Some admin) teams =
     (if name = [] \<or> description = [] \<or> admin = [] then
        (Inl (ValueError ''Name, description, and admin are required''), teams)
      else if length name > 64 then
        (Inl (ValueError ''Name must be 64 characters or less''), teams)
      else if length description > 128 then
        (Inl (ValueError ''Description must be 128 characters or less''), teams)
      else
        (case any_field_eq ''name'' (TStr name) (map snd teams) of
           Inl e \<Rightarrow> (Inl e, teams)
         | Inr True \<Rightarrow> (Inl (ValueError ''Team name must be unique''), teams)
         | Inr False \<Rightarrow>
             (let team_id = str_nat (length teams + 1) in
              (Inr team_id,
               AList.update team_id
                 [(''name'', TStr name), (''description'', TStr description),
                  (''admin'', TStr admin), (''creation_time'', TStr now), (''users'', TList [])]
                 teams))))"
| "create_team now _ _ _ teams =
     (Inl (ValueError ''Name, description, and admin are required''), teams)"




definition name_taken :: "string dict \<Rightarrow> team \<Rightarrow> teams \<Rightarrow> error + bool" where
  \<comment> \<open>\<^verbatim>\<open>"name" in team_updates and any(team['name'] == new_name for team in teams.values()
      if team != teams[team_id])\<close>\<close>
  "name_taken team_updates current teams =
     (case map_of team_updates ''name'' of
        None \<Rightarrow> Inr False
      | Some new_name \<Rightarrow>
          any_field_eq ''name'' (TStr new_name)
            (filter (\<lambda>team. \<not> dict_eq team current) (map snd teams)))"

definition update_team :: "string option \<Rightarrow> string dict \<Rightarrow> teams \<Rightarrow> (error + string) \<times> teams" where
  "update_team team_id team_updates teams =
     (case team_id of
        None \<Rightarrow> (Inl (ValueError ''Team ID is required''), teams)
      | Some tid \<Rightarrow>
          if tid = [] then (Inl (ValueError ''Team ID is required''), teams)
          else if too_long ''name'' 64 team_updates then
            (Inl (ValueError ''Name must be 64 characters or less''), teams)
          else if too_long ''description'' 128 team_updates then
            (Inl (ValueError ''Description must be 128 characters or less''), teams)
          else (case map_of teams tid of
                  None \<Rightarrow> (Inl (ValueError ''Team not found''), teams)
                | Some team \<Rightarrow>
                    (case name_taken team_updates team teams of
                       Inl e \<Rightarrow> (Inl e, teams)
                     | Inr True \<Rightarrow> (Inl (ValueError ''Team name must be unique''), teams)
                     | Inr False \<Rightarrow>
                         (Inr tid,
                          AList.update tid
                            (dict_update team (map (\<lambda>(k, v). (k, TStr v)) team_updates))
                            teams))))"

text \<open>
  \<^verbatim>\<open>list(set(xs))\<close> lists every element of \<open>xs\<close> once, in an order that depends on the hash
  seed of the process. The order is the argument \<open>set_order\<close> of \<open>add_users_to_team\<close>;
  \<open>lists_set\<close> says what every run of Python guarantees of it.
\<close>

definition lists_set :: "(string list \<Rightarrow> string list) \<Rightarrow> bool" where
  "lists_set set_order = (\<forall>xs. distinct (set_order xs) \<and> set (set_order xs) = set xs)"

definition add_users_to_team ::
  "(string list \<Rightarrow> string list) \<Rightarrow> string option \<Rightarrow> string list \<Rightarrow> teams \<Rightarrow> (error + string) \<times> teams" where
  "add_users_to_team set_order team_id users teams =
     (case team_id of
        None \<Rightarrow> (Inl (ValueError ''Team ID is required''), teams)
      | Some tid \<Rightarrow>
          if tid = [] then (Inl (ValueError ''Team ID is required''), teams)
          else if length users > 50 then
            (Inl (ValueError ''Cannot add more than 50 users to a team''), teams)
          else (case map_of teams tid of
                  None \<Rightarrow> (Inl (ValueError ''Team not found''), teams)
                | Some team \<Rightarrow>
                    (case map_of team ''users'' of
                       None \<Rightarrow> (Inl (KeyError ''users''), teams)
                     | Some (TStr s) \<Rightarrow> (Inl TypeError, teams)
                     | Some (TList members) \<Rightarrow>
                         (Inr tid,
                          AList.update tid
                            (AList.update ''users'' (TList (set_order (members @ users))) team)
                            teams))))"

definition iter :: "tval \<Rightarrow> string list" where
  \<comment> \<open>\<^verbatim>\<open>for x in v\<close>: the elements of a list, the characters of a string\<close>
  "iter v = (case v of TList xs \<Rightarrow> xs | TStr s \<Rightarrow> map (\<lambda>c. [c]) s)"


text \<open>
  \<^verbatim>\<open>list_team_users\<close> resolves a member with
  \<^verbatim>\<open>UserManager.describe_user(json.dumps({"id": user_id}))\<close>: the function is taken from the
  class, not from an instance, so the one argument is bound to \<^verbatim>\<open>self\<close>, \<^verbatim>\<open>request\<close> is
  missing, and Python raises \<^verbatim>\<open>TypeError\<close> before the body of \<^verbatim>\<open>describe_user\<close> runs. No
  user collection is read.
\<close>

definition describe_user_of_class :: "string \<Rightarrow> error + user" where
  "describe_user_of_class user_id = Inl TypeError"

definition team_user :: "string \<Rightarrow> error + user" where
  \<comment> \<open>one turn of the loop of \<^verbatim>\<open>list_team_users\<close>\<close>
  "team_user user_id =
     (case describe_user_of_class user_id of
        Inl e \<Rightarrow> Inl e
      | Inr user_details \<Rightarrow>
          (case map_of user_details ''name'' of None \<Rightarrow> Inl (KeyError ''name'') | Some n \<Rightarrow>
          (case map_of user_details ''display_name'' of
             None \<Rightarrow> Inl (KeyError ''display_name'')
           | Some d \<Rightarrow> Inr [(''id'', user_id), (''name'', n), (''display_name'', d)])))"

definition list_team_users :: "string option \<Rightarrow> teams \<Rightarrow> error + user list" where
  "list_team_users team_id teams =
     (case team_id of
        None \<Rightarrow> Inl (ValueError ''Team ID is required'')
      | Some tid \<Rightarrow>
          if tid = [] then Inl (ValueError ''Team ID is required'')
          else (case map_of teams tid of
                  None \<Rightarrow> Inl (ValueError ''Team not found'')
                | Some team \<Rightarrow>
                    (case map_of team ''users'' of
                       None \<Rightarrow> Inl (KeyError ''users'')
                     | Some members \<Rightarrow> views team_user (iter members))))"

section \<open>ProjectBoardManager\<close>

text \<open>
  Board and task records only ever hold the keys that \<^verbatim>\<open>create_board\<close>, \<^verbatim>\<open>close_board\<close>
  and \<^verbatim>\<open>add_task\<close> write, so they are records; \<^verbatim>\<open>end_time\<close> is missing until the board is
  closed. The statuses stay the strings the code compares.
\<close>

record task =
  t_title :: string
  t_description :: string
  t_user_id :: string
  t_status :: string
  t_creation_time :: string

record board =
  b_name :: string
  b_description :: string
  b_team_id :: string
  b_status :: string
  b_creation_time :: string
  b_end_time :: "string option"
  b_tasks :: "task dict"

type_synonym boards = "board dict"

fun create_board ::
  "string \<Rightarrow> string option \<Rightarrow> string option \<Rightarrow> string option \<Rightarrow> boards \<Rightarrow> (error + string) \<times> boards" where
  "create_board now (Some name) (Some description) (Some team_id) boards =
     (if name = [] \<or> description = [] \<or> team_id = [] then
        (Inl (ValueError ''Name, description, and team ID are required''), boards)
      else if length name > 64 then
        (Inl (ValueError ''Name must be 64 characters or less''), boards)
      else if length description > 128 then
        (Inl (ValueError ''Description must be 128 characters or less''), boards)
      else if list_ex (\<lambda>board. b_name board = name \<and> b_team_id board = team_id) (map snd boards) then
        (Inl (ValueError ''Board name must be unique for the team, Board name already exists''), boards)
      else
        (let board_id = str_nat (length boards + 1) in
         (Inr board_id,
          AList.update board_id
            \<lparr>b_name = name, b_description = description, b_team_id = team_id,
             b_status = ''OPEN'', b_creation_time = now, b_end_time = None, b_tasks = []\<rparr>
            boards)))"
| "create_board now _ _ _ boards =
     (Inl (ValueError ''Name, description, and team ID are required''), boards)"

definition close_board :: "string \<Rightarrow> string option \<Rightarrow> boards \<Rightarrow> (error + string) \<times> boards" where
  "close_board now board_id boards =
     (case board_id of
        None \<Rightarrow> (Inl (ValueError ''Board ID is required''), boards)
      | Some bid \<Rightarrow>
          if bid = [] then (Inl (ValueError ''Board ID is required''), boards)
          else (case map_of boards bid of
                  None \<Rightarrow> (Inl (ValueError ''Board not found''), boards)
                | Some board \<Rightarrow>
                    if list_ex (\<lambda>task. t_status task \<noteq> ''COMPLETE'') (map snd (b_tasks board)) then
                      (Inl (ValueError ''Cannot close board with incomplete tasks''), boards)
                    else
                      (Inr bid,
                       AList.update bid
                         (board\<lparr>b_status := ''CLOSED'', b_end_time := Some now\<rparr>) boards)))"

fun add_task ::
  "string \<Rightarrow> string option \<Rightarrow> string option \<Rightarrow> string option \<Rightarrow> string option \<Rightarrow> boards
     \<Rightarrow> (error + string) \<times> boards" where
  "add_task now (Some title) (Some description) (Some user_id) (Some board_id) boards =
     (if title = [] \<or> description = [] \<or> user_id = [] \<or> board_id = [] then
        (Inl (ValueError ''Title, description, user ID, and board ID are required''), boards)
      else if length title > 64 then
        (Inl (ValueError ''Title must be 64 characters or less''), boards)
      else if length description > 128 then
        (Inl (ValueError ''Description must be 128 characters or less''), boards)
      else
        (case map_of boards board_id of
           None \<Rightarrow> (Inl (ValueError ''Board not found''), boards)
         | Some board \<Rightarrow>
             if b_status board \<noteq> ''OPEN'' then
               (Inl (ValueError ''Cannot add task to a closed board''), boards)
             else if list_ex (\<lambda>task. t_title task = title) (map snd (b_tasks board)) then
               (Inl (ValueError ''Task title must be unique for the board''), boards)
             else
               (let task_id = str_nat (length (b_tasks board) + 1) in
                (Inr task_id,
                 AList.update board_id
                   (board\<lparr>b_tasks :=
                      AList.update task_id
                        \<lparr>t_title = title, t_description = description, t_user_id = user_id,
                         t_status = ''OPEN'', t_creation_time = now\<rparr>
                        (b_tasks board)\<rparr>)
                   boards))))"
| "add_task now _ _ _ _ boards =
     (Inl (ValueError ''Title, description, user ID, and board ID are required''), boards)"

fun set_first :: "string \<Rightarrow> string \<Rightarrow> boards \<Rightarrow> boards option" where
  \<comment> \<open>the loop of \<^verbatim>\<open>update_task_status\<close> over \<^verbatim>\<open>boards.values()\<close>: the first board that has
      the task id gets the status and the loop returns; \<open>None\<close> when the loop runs out\<close>
  "set_first task_id status [] = None"
| "set_first task_id status ((board_id, board) # rest) =
     (case map_of (b_tasks board) task_id of
        Some task \<Rightarrow>
          Some ((board_id,
                 board\<lparr>b_tasks := AList.update task_id (task\<lparr>t_status := status\<rparr>) (b_tasks board)\<rparr>)
                # rest)
      | None \<Rightarrow> map_option (Cons (board_id, board)) (set_first task_id status rest))"

definition update_task_status ::
  "string option \<Rightarrow> string option \<Rightarrow> boards \<Rightarrow> (error + string) \<times> boards" where
  "update_task_status task_id status boards =
     (if falsy task_id \<or> falsy status then
        (Inl (ValueError ''Task ID and status are required''), boards)
      else
        (case (task_id, status) of
           (Some tid, Some st) \<Rightarrow>
             if st \<notin> set [''OPEN'', ''IN_PROGRESS'', ''COMPLETE''] then
               (Inl (ValueError ''Invalid status value''), boards)
             else (case set_first tid st boards of
                     Some boards' \<Rightarrow> (Inr tid, boards')
                   | None \<Rightarrow> (Inl (ValueError ''Task not found''), boards))
         | _ \<Rightarrow> (Inl (ValueError ''Task ID and status are required''), boards)))"


section \<open>Properties of a collection\<close>

text \<open>
  The identifiers of a collection that only the operations have written are
  \<^verbatim>\<open>str(1)\<close>, ..., \<^verbatim>\<open>str(n)\<close>, in this order: every create operation assigns
  \<^verbatim>\<open>str(len(collection) + 1)\<close> and nothing is ever deleted.
\<close>

definition counted :: "'v dict \<Rightarrow> bool" where
  "counted al = (map fst al = map str_nat [1..<Suc (length al)])"



inductive boards_reachable :: "boards \<Rightarrow> bool" where
  "boards_reachable []"
| "boards_reachable boards \<Longrightarrow>
     boards_reachable (snd (create_board now name description team_id boards))"
| "boards_reachable boards \<Longrightarrow> boards_reachable (snd (close_board now board_id boards))"
| "boards_reachable boards \<Longrightarrow>
     boards_reachable (snd (add_task now title description user_id board_id boards))"
| "boards_reachable boards \<Longrightarrow> boards_reachable (snd (update_task_status task_id status boards))"

definition tasks_counted :: "boards \<Rightarrow> bool" where
  \<comment> \<open>the task identifiers of every board are \<^verbatim>\<open>str(1)\<close>, ..., \<^verbatim>\<open>str(n)\<close>\<close>
  "tasks_counted boards = list_all (\<lambda>board. counted (b_tasks board)) (map snd boards)"




definition names :: "'v dict dict \<Rightarrow> 'v option list" where
  \<comment> \<open>the \<^verbatim>\<open>name\<close> of every record of a collection, \<open>None\<close> for a record without one\<close>
  "names records = map (\<lambda>p. map_of (snd p) ''name'') records"

definition unique_names :: "'v dict dict \<Rightarrow> bool" where
  "unique_names records = distinct (names records)"

section \<open>Runs used as examples\<close>

text \<open>
  The runs of section 8 of the specification and a few more: two users, a team with a
  member, a board with one task that is completed and closed, and three boards of which two
  have a task with the same identifier.
\<close>

definition users1 :: users where
  "users1 = snd (create_user ''t1'' (Some ''alice'') (Some ''Alice A'') [])"

definition users2 :: users where
  "users2 = snd (create_user ''t2'' (Some ''bob'') (Some ''Bob B'') users1)"

definition teams1 :: teams where
  "teams1 = snd (create_team ''t1'' (Some ''core'') (Some ''the core team'') (Some ''1'') [])"

definition teams2 :: teams where
  "teams2 = snd (add_users_to_team remdups (Some ''1'') [''1''] teams1)"

definition sprint :: "string \<Rightarrow> string \<Rightarrow> string \<Rightarrow> string option \<Rightarrow> task dict \<Rightarrow> board" where
  "sprint name status now end_time tasks =
     \<lparr>b_name = name, b_description = ''d'', b_team_id = ''1'', b_status = status,
      b_creation_time = now, b_end_time = end_time, b_tasks = tasks\<rparr>"

definition job :: "string \<Rightarrow> string \<Rightarrow> string \<Rightarrow> task" where
  "job title status now =
     \<lparr>t_title = title, t_description = ''d'', t_user_id = ''1'', t_status = status,
      t_creation_time = now\<rparr>"

definition boards1 :: boards where
  "boards1 = snd (create_board ''t1'' (Some ''Sprint1'') (Some ''d'') (Some ''1'') [])"

definition boards2 :: boards where
  "boards2 = snd (add_task ''t2'' (Some ''T1'') (Some ''d'') (Some ''1'') (Some ''1'') boards1)"

definition boards3 :: boards where
  "boards3 = snd (update_task_status (Some ''1'') (Some ''COMPLETE'') boards2)"

definition boards4 :: boards where
  "boards4 = snd (close_board ''t4'' (Some ''1'') boards3)"



section \<open>Dictionaries\<close>

lemma map_of_update_same: "map_of (AList.update k v al) k = Some v"
  by (simp add: update_conv')

lemma map_of_update_other: "k' \<noteq> k \<Longrightarrow> map_of (AList.update k v al) k' = map_of al k'"
  by (simp add: update_conv')

lemma set_update_cases:
  "p \<in> set (AList.update k v al) \<Longrightarrow> p \<in> set al \<or> p = (k, v)"
  by (induction al) (auto split: if_splits)


lemma list_ex_snd: "list_ex P (map snd al) = (\<exists>(k, v)\<in>set al. P v)"
  by (induction al) auto

lemma list_all_update:
  "list_all P (map snd al) \<Longrightarrow> P w \<Longrightarrow> list_all P (map snd (AList.update k w al))"
  by (induction al) auto

lemma list_all_lookup: "list_all P (map snd al) \<Longrightarrow> map_of al k = Some v \<Longrightarrow> P v"
  by (induction al) (auto split: if_splits)


lemma distinct_update_new:
  "distinct (map (\<lambda>p. g (snd p)) al) \<Longrightarrow> \<forall>p\<in>set al. g (snd p) \<noteq> g w \<Longrightarrow>
   distinct (map (\<lambda>p. g (snd p)) (AList.update k w al))"
proof (induction al)
  case Nil
  then show ?case by simp
next
  case (Cons q al)
  show ?case
  proof (cases "fst q = k")
    case True
    with Cons.prems show ?thesis by (simp add: image_iff) metis
  next
    case False
    from Cons have t: "distinct (map (\<lambda>p. g (snd p)) (AList.update k w al))" by simp
    have "g (snd q) \<noteq> g (snd p)" if "p \<in> set (AList.update k w al)" for p
    proof -
      from that have "p \<in> set al \<or> p = (k, w)" by (rule set_update_cases)
      then show ?thesis
      proof
        assume "p \<in> set al"
        with Cons.prems(1) show ?thesis by (simp add: image_iff)
      next
        assume "p = (k, w)"
        with Cons.prems(2) show ?thesis by simp
      qed
    qed
    then have "g (snd q) \<notin> (\<lambda>p. g (snd p)) ` set (AList.update k w al)" by blast
    with t False show ?thesis by simp
  qed
qed

lemma distinct_update_old:
  "distinct (map (\<lambda>p. g (snd p)) al) \<Longrightarrow> map_of al k = Some v \<Longrightarrow>
   \<forall>p\<in>set al. g (snd p) \<noteq> g v \<longrightarrow> g (snd p) \<noteq> g w \<Longrightarrow>
   distinct (map (\<lambda>p. g (snd p)) (AList.update k w al))"
proof (induction al)
  case Nil
  then show ?case by simp
next
  case (Cons q al)
  show ?case
  proof (cases "fst q = k")
    case True
    with Cons.prems(2) have v: "snd q = v" by (cases q) simp
    have "g w \<noteq> g (snd p)" if "p \<in> set al" for p
    proof -
      from that Cons.prems(1) v have "g (snd p) \<noteq> g v" by (simp add: image_iff) metis
      with that Cons.prems(3) show ?thesis by fastforce
    qed
    then have "g w \<notin> (\<lambda>p. g (snd p)) ` set al" by blast
    with Cons.prems(1) True show ?thesis by simp
  next
    case False
    with Cons.prems(2) have m: "map_of al k = Some v" by (cases q) simp
    with Cons have t: "distinct (map (\<lambda>p. g (snd p)) (AList.update k w al))" by simp
    from m have kv: "(k, v) \<in> set al" by (rule map_of_SomeD)
    with Cons.prems(1) have "g (snd q) \<noteq> g v" by (simp add: image_iff) (metis snd_conv)
    with Cons.prems(3) have nw: "g (snd q) \<noteq> g w" by simp
    have "g (snd q) \<noteq> g (snd p)" if "p \<in> set (AList.update k w al)" for p
    proof -
      from that have "p \<in> set al \<or> p = (k, w)" by (rule set_update_cases)
      then show ?thesis
      proof
        assume "p \<in> set al"
        with Cons.prems(1) show ?thesis by (simp add: image_iff)
      next
        assume "p = (k, w)"
        with nw show ?thesis by simp
      qed
    qed
    then have "g (snd q) \<notin> (\<lambda>p. g (snd p)) ` set (AList.update k w al)" by blast
    with t False show ?thesis by simp
  qed
qed


lemma map_of_dict_update:
  "distinct (map fst other) \<Longrightarrow>
   map_of (dict_update d other) k = (case map_of other k of None \<Rightarrow> map_of d k | Some v \<Rightarrow> Some v)"
  unfolding dict_update_def
proof (induction other arbitrary: d)
  case Nil
  then show ?case by simp
next
  case (Cons p other)
  obtain k' v' where p: "p = (k', v')" by (cases p)
  from Cons.prems p have "map_of other k' = None"
    by (simp add: map_of_eq_None_iff)
  with Cons p show ?case
    by (auto simp: update_conv' split: option.splits)
qed

lemma dict_eq_same_value: "dict_eq r d \<Longrightarrow> map_of r k = Some n \<Longrightarrow> map_of d k = Some n"
  unfolding dict_eq_def by (auto simp: list_all_iff dest!: map_of_SomeD)

lemma any_field_eq_hit:
  "(\<exists>r\<in>set rs. map_of r k = Some v) \<Longrightarrow> any_field_eq k v rs \<noteq> Inr False"
  by (induction rs) (auto split: option.splits)

lemma any_field_eq_miss:
  "any_field_eq k v rs = Inr False \<Longrightarrow> \<forall>r\<in>set rs. map_of r k \<noteq> Some v"
  by (induction rs) (auto split: option.splits if_splits)



section \<open>Identifiers\<close>

lemma str_nat_1: "str_nat (Suc 0) = ''1''"
  by (simp add: str_nat.simps digit_def)

lemma str_nat_2: "str_nat (Suc (Suc 0)) = ''2''"
  by (simp add: str_nat.simps digit_def)


lemma digit_inj: "a < 10 \<Longrightarrow> b < 10 \<Longrightarrow> digit a = digit b \<Longrightarrow> a = b"
proof -
  assume a: "a < 10" and b: "b < 10" and e: "digit a = digit b"
  have da: "distinct ''0123456789''" by simp
  have "length ''0123456789'' = 10" by simp
  with a b e da show "a = b"
    unfolding digit_def by (metis nth_eq_iff_index_eq)
qed

lemma str_nat_nonempty: "str_nat n \<noteq> []"
  by (subst str_nat.simps) simp

lemma str_nat_inj: "str_nat m = str_nat n \<Longrightarrow> m = n"
proof (induction m arbitrary: n rule: str_nat.induct)
  case (1 m)
  show ?case
  proof (cases "m < 10")
    case True
    then have m: "str_nat m = [digit m]" by (subst str_nat.simps) simp
    show ?thesis
    proof (cases "n < 10")
      case True
      then have "str_nat n = [digit n]" by (subst str_nat.simps) simp
      with m "1.prems" have "digit m = digit n" by simp
      with \<open>m < 10\<close> True show ?thesis by (rule digit_inj)
    next
      case False
      then have "str_nat n = str_nat (n div 10) @ [digit (n mod 10)]"
        by (subst str_nat.simps) simp
      with m "1.prems" have "str_nat (n div 10) = []" by simp
      then show ?thesis by (simp add: str_nat_nonempty)
    qed
  next
    case False
    then have m: "str_nat m = str_nat (m div 10) @ [digit (m mod 10)]"
      by (subst str_nat.simps) simp
    show ?thesis
    proof (cases "n < 10")
      case True
      then have "str_nat n = [digit n]" by (subst str_nat.simps) simp
      with m "1.prems" have "str_nat (m div 10) = []" by simp
      then show ?thesis by (simp add: str_nat_nonempty)
    next
      case n: False
      then have "str_nat n = str_nat (n div 10) @ [digit (n mod 10)]"
        by (subst str_nat.simps) simp
      with m "1.prems" have e: "str_nat (m div 10) = str_nat (n div 10)"
        and d: "digit (m mod 10) = digit (n mod 10)"
        by simp_all
      from "1.IH" [OF False e] have q: "m div 10 = n div 10" .
      have "m mod 10 = n mod 10" by (rule digit_inj [OF _ _ d]) simp_all
      with q show ?thesis by (metis div_mult_mod_eq)
    qed
  qed
qed

lemma counted_Nil: "counted []"
  by (simp add: counted_def)

lemma counted_fresh: "counted al \<Longrightarrow> str_nat (Suc (length al)) \<notin> fst ` set al"
proof
  assume c: "counted al" and "str_nat (Suc (length al)) \<in> fst ` set al"
  then have "str_nat (Suc (length al)) \<in> set (map fst al)" by simp
  with c have "str_nat (Suc (length al)) \<in> set (map str_nat [1..<Suc (length al)])"
    by (simp add: counted_def)
  then obtain i where "i \<in> set [1..<Suc (length al)]" and "str_nat i = str_nat (Suc (length al))"
    by (metis imageE list.set_map)
  then have "i < Suc (length al)" and "i = Suc (length al)"
    by (auto dest: str_nat_inj)
  then show False by simp
qed


lemma counted_new: "counted al \<Longrightarrow> counted (AList.update (str_nat (Suc (length al))) v al)"
proof -
  assume c: "counted al"
  let ?k = "str_nat (Suc (length al))"
  from counted_fresh [OF c] have f: "?k \<notin> set (map fst al)" by simp
  then have k: "map fst (AList.update ?k v al) = map fst al @ [?k]"
    by (simp add: update_keys)
  then have "length (AList.update ?k v al) = Suc (length al)"
    by (metis length_append_singleton length_map)
  with k c show ?thesis
    by (simp add: counted_def)
qed

lemma counted_old: "map_of al k = Some w \<Longrightarrow> counted al \<Longrightarrow> counted (AList.update k v al)"
proof -
  assume m: "map_of al k = Some w" and c: "counted al"
  from m have "k \<in> set (map fst al)"
    by (metis map_of_eq_None_iff option.distinct(1) set_map)
  then have k: "map fst (AList.update k v al) = map fst al"
    by (simp add: update_keys)
  then have "length (AList.update k v al) = length al"
    by (metis length_map)
  with k c show ?thesis by (simp add: counted_def)
qed

section \<open>The example runs, evaluated\<close>

lemma users1_eq:
  "users1 = [(''1'', [(''name'', ''alice''), (''display_name'', ''Alice A''), (''creation_time'', ''t1'')])]"
  by (simp add: users1_def str_nat_1 Let_def)

lemma users2_eq:
  "users2 = [(''1'', [(''name'', ''alice''), (''display_name'', ''Alice A''), (''creation_time'', ''t1'')]),
             (''2'', [(''name'', ''bob''), (''display_name'', ''Bob B''), (''creation_time'', ''t2'')])]"
  by (simp add: users2_def users1_eq str_nat_2 Let_def)

lemma teams1_eq:
  "teams1 = [(''1'', [(''name'', TStr ''core''), (''description'', TStr ''the core team''),
                      (''admin'', TStr ''1''), (''creation_time'', TStr ''t1''), (''users'', TList [])])]"
  by (simp add: teams1_def str_nat_1 Let_def)

lemma teams2_eq:
  "teams2 = [(''1'', [(''name'', TStr ''core''), (''description'', TStr ''the core team''),
                      (''admin'', TStr ''1''), (''creation_time'', TStr ''t1''),
                      (''users'', TList [''1''])])]"
  by (simp add: teams2_def teams1_eq add_users_to_team_def)

lemma boards1_eq: "boards1 = [(''1'', sprint ''Sprint1'' ''OPEN'' ''t1'' None [])]"
  by (simp add: boards1_def sprint_def str_nat_1 Let_def)

lemma boards2_eq:
  "boards2 = [(''1'', sprint ''Sprint1'' ''OPEN'' ''t1'' None [(''1'', job ''T1'' ''OPEN'' ''t2'')])]"
  by (simp add: boards2_def boards1_eq sprint_def job_def str_nat_1 Let_def)

lemma boards3_eq:
  "boards3 = [(''1'', sprint ''Sprint1'' ''OPEN'' ''t1'' None [(''1'', job ''T1'' ''COMPLETE'' ''t2'')])]"
  by (simp add: boards3_def boards2_eq sprint_def job_def update_task_status_def falsy_def)

lemma boards4_eq:
  "boards4 =
     [(''1'', sprint ''Sprint1'' ''CLOSED'' ''t1'' (Some ''t4'') [(''1'', job ''T1'' ''COMPLETE'' ''t2'')])]"
  by (simp add: boards4_def boards3_eq sprint_def job_def close_board_def)



section \<open>What holds of every collection the operations produce\<close>



























lemma tasks_counted_create_board:
  "tasks_counted boards \<Longrightarrow> tasks_counted (snd (create_board now name description team_id boards))"
  unfolding tasks_counted_def
  by (cases "(now, name, description, team_id, boards)" rule: create_board.cases)
     (auto simp: Let_def counted_Nil intro!: list_all_update)

lemma tasks_counted_close_board:
  "tasks_counted boards \<Longrightarrow> tasks_counted (snd (close_board now board_id boards))"
  unfolding tasks_counted_def
  by (auto simp: close_board_def split: option.splits intro!: list_all_update
           dest: list_all_lookup)

lemma tasks_counted_add_task:
  "tasks_counted boards \<Longrightarrow>
   tasks_counted (snd (add_task now title description user_id board_id boards))"
  unfolding tasks_counted_def
  by (cases "(now, title, description, user_id, board_id, boards)" rule: add_task.cases)
     (auto simp: Let_def split: option.splits intro!: list_all_update counted_new
           dest: list_all_lookup)

lemma set_first_tasks_counted:
  "list_all (\<lambda>board. counted (b_tasks board)) (map snd boards) \<Longrightarrow>
   set_first task_id status boards = Some boards' \<Longrightarrow>
   list_all (\<lambda>board. counted (b_tasks board)) (map snd boards')"
proof (induction boards arbitrary: boards')
  case Nil
  then show ?case by simp
next
  case (Cons p boards)
  obtain k b where p: "p = (k, b)" by (cases p)
  show ?case
  proof (cases "map_of (b_tasks b) task_id")
    case None
    with Cons p show ?thesis by auto
  next
    case (Some task)
    with Cons.prems p show ?thesis by (auto intro: counted_old)
  qed
qed

lemma tasks_counted_update_task_status:
  "tasks_counted boards \<Longrightarrow> tasks_counted (snd (update_task_status task_id status boards))"
  unfolding tasks_counted_def
  by (auto simp: update_task_status_def split: option.splits dest: set_first_tasks_counted)

lemma boards_reachable_tasks_counted: "boards_reachable boards \<Longrightarrow> tasks_counted boards"
proof (induction rule: boards_reachable.induct)
  case 1
  then show ?case by (simp add: tasks_counted_def)
next
  case (2 boards now name description team_id)
  from "2.IH" show ?case by (rule tasks_counted_create_board)
next
  case (3 boards now board_id)
  from "3.IH" show ?case by (rule tasks_counted_close_board)
next
  case (4 boards now title description user_id board_id)
  from "4.IH" show ?case by (rule tasks_counted_add_task)
next
  case (5 boards task_id status)
  from "5.IH" show ?case by (rule tasks_counted_update_task_status)
qed

section \<open>Creating a record\<close>










section \<open>Creating under a name that is taken\<close>

lemma create_user_duplicate:
  assumes "(uid, user) \<in> set users" and "map_of user ''name'' = Some name"
  shows "isl (fst (create_user now (Some name) display_name users))
       \<and> snd (create_user now (Some name) display_name users) = users"
proof -
  have "\<exists>r\<in>set (map snd users). map_of r ''name'' = Some name"
    using assms by force
  then have "any_field_eq ''name'' name (map snd users) \<noteq> Inr False"
    by (rule any_field_eq_hit)
  then show ?thesis
    by (cases display_name) (auto split: sum.splits bool.splits)
qed

lemma create_team_duplicate:
  assumes "(tid, team) \<in> set teams" and "map_of team ''name'' = Some (TStr name)"
  shows "isl (fst (create_team now (Some name) description admin teams))
       \<and> snd (create_team now (Some name) description admin teams) = teams"
proof -
  have "\<exists>r\<in>set (map snd teams). map_of r ''name'' = Some (TStr name)"
    using assms by force
  then have "any_field_eq ''name'' (TStr name) (map snd teams) \<noteq> Inr False"
    by (rule any_field_eq_hit)
  then show ?thesis
    by (cases description; cases admin) (auto split: sum.splits bool.splits)
qed

lemma create_board_duplicate:
  assumes "(bid, board) \<in> set boards" and "b_name board = name" and "b_team_id board = team_id"
  shows "isl (fst (create_board now (Some name) description (Some team_id) boards))
       \<and> snd (create_board now (Some name) description (Some team_id) boards) = boards"
proof -
  have "list_ex (\<lambda>board. b_name board = name \<and> b_team_id board = team_id) (map snd boards)"
    using assms by (auto simp: list_ex_snd)
  then show ?thesis
    by (cases description) auto
qed

text \<open>
  Claim C5. When \<open>create_user\<close> is called with the name of a stored user, \<open>create_team\<close>
  with the name of a stored team, or \<open>create_board\<close> with the name and team id of a stored
  board, the call raises and the collection stays as it was: no record is added and none is
  changed. This holds whatever the other members of the request are.
\<close>

theorem create_with_taken_name_fails:
  "((uid, user) \<in> set users \<and> map_of user ''name'' = Some uname \<longrightarrow>
      isl (fst (create_user now (Some uname) display_name users)) \<and>
      snd (create_user now (Some uname) display_name users) = users)
   \<and> ((tid, team) \<in> set teams \<and> map_of team ''name'' = Some (TStr tname) \<longrightarrow>
      isl (fst (create_team now (Some tname) description admin teams)) \<and>
      snd (create_team now (Some tname) description admin teams) = teams)
   \<and> ((bid, board) \<in> set boards \<and> b_name board = bname \<and> b_team_id board = team_id \<longrightarrow>
      isl (fst (create_board now (Some bname) bdescription (Some team_id) boards)) \<and>
      snd (create_board now (Some bname) bdescription (Some team_id) boards) = boards)"
  using create_user_duplicate create_team_duplicate create_board_duplicate by blast

theorem create_with_taken_name_fails_witness:
  "(''1'', [(''name'', ''alice''), (''display_name'', ''Alice A''), (''creation_time'', ''t1'')])
     \<in> set users1
   \<and> isl (fst (create_user ''t2'' (Some ''alice'') (Some ''Alice B'') users1))
   \<and> snd (create_user ''t2'' (Some ''alice'') (Some ''Alice B'') users1) = users1
   \<and> (''1'', [(''name'', TStr ''core''), (''description'', TStr ''the core team''),
              (''admin'', TStr ''1''), (''creation_time'', TStr ''t1''), (''users'', TList [])])
     \<in> set teams1
   \<and> isl (fst (create_team ''t2'' (Some ''core'') (Some ''again'') (Some ''2'') teams1))
   \<and> snd (create_team ''t2'' (Some ''core'') (Some ''again'') (Some ''2'') teams1) = teams1
   \<and> (''1'', sprint ''Sprint1'' ''OPEN'' ''t1'' None []) \<in> set boards1
   \<and> isl (fst (create_board ''t2'' (Some ''Sprint1'') (Some ''e'') (Some ''1'') boards1))
   \<and> snd (create_board ''t2'' (Some ''Sprint1'') (Some ''e'') (Some ''1'') boards1) = boards1"
proof -
  let ?alice = "[(''name'', ''alice''), (''display_name'', ''Alice A''), (''creation_time'', ''t1'')]"
  let ?core = "[(''name'', TStr ''core''), (''description'', TStr ''the core team''),
                (''admin'', TStr ''1''), (''creation_time'', TStr ''t1''), (''users'', TList [])]"
  let ?sprint1 = "sprint ''Sprint1'' ''OPEN'' ''t1'' None []"
  have u: "(''1'', ?alice) \<in> set users1" and un: "map_of ?alice ''name'' = Some ''alice''"
    by (simp_all add: users1_eq)
  have t: "(''1'', ?core) \<in> set teams1" and tn: "map_of ?core ''name'' = Some (TStr ''core'')"
    by (simp_all add: teams1_eq)
  have b: "(''1'', ?sprint1) \<in> set boards1" and bn: "b_name ?sprint1 = ''Sprint1''"
    and bt: "b_team_id ?sprint1 = ''1''"
    by (simp_all add: boards1_eq sprint_def)
  note inst =
    create_with_taken_name_fails
      [of "''1''" ?alice users1 "''alice''" "''t2''" "Some ''Alice B''"
          "''1''" ?core teams1 "''core''" "Some ''again''" "Some ''2''"
          "''1''" ?sprint1 boards1 "''Sprint1''" "''1''" "Some ''e''"]
  from u un t tn b bn bt inst show ?thesis by blast
qed

section \<open>Closing a board\<close>

lemma close_board_complete:
  assumes "map_of boards bid = Some board" and "bid \<noteq> []"
    and "list_all (\<lambda>task. t_status task = ''COMPLETE'') (map snd (b_tasks board))"
  shows "close_board now (Some bid) boards =
           (Inr bid, AList.update bid (board\<lparr>b_status := ''CLOSED'', b_end_time := Some now\<rparr>) boards)"
  using assms by (simp add: close_board_def list_ex_iff list_all_iff)

lemma close_board_incomplete:
  assumes "map_of boards bid = Some board"
    and "(k, task) \<in> set (b_tasks board)" and "t_status task \<noteq> ''COMPLETE''"
  shows "isl (fst (close_board now (Some bid) boards)) \<and> snd (close_board now (Some bid) boards) = boards"
proof -
  from assms(2,3) have "list_ex (\<lambda>task. t_status task \<noteq> ''COMPLETE'') (map snd (b_tasks board))"
    by (auto simp: list_ex_snd)
  with assms(1) show ?thesis by (simp add: close_board_def)
qed

text \<open>
  Claim C6. Let a board be stored under a non-empty identifier. When it has no tasks,
  \<open>close_board\<close> succeeds, and the board is stored with status CLOSED and the time of the
  call as its \<^verbatim>\<open>end_time\<close>, its other members as before. When one of its tasks has a status
  other than COMPLETE, \<open>close_board\<close> raises and the collection is unchanged, so the
  status of the board stays what it was.
\<close>

theorem close_board_zero_tasks_or_incomplete:
  assumes "map_of boards bid = Some board" and "bid \<noteq> []"
  shows "(b_tasks board = [] \<longrightarrow>
            fst (close_board now (Some bid) boards) = Inr bid \<and>
            map_of (snd (close_board now (Some bid) boards)) bid =
              Some (board\<lparr>b_status := ''CLOSED'', b_end_time := Some now\<rparr>))
       \<and> ((k, task) \<in> set (b_tasks board) \<and> t_status task \<noteq> ''COMPLETE'' \<longrightarrow>
            isl (fst (close_board now (Some bid) boards)) \<and>
            snd (close_board now (Some bid) boards) = boards)"
proof (intro conjI impI)
  assume "b_tasks board = []"
  then have "list_all (\<lambda>task. t_status task = ''COMPLETE'') (map snd (b_tasks board))" by simp
  from close_board_complete [OF assms this]
  show "fst (close_board now (Some bid) boards) = Inr bid"
    and "map_of (snd (close_board now (Some bid) boards)) bid =
           Some (board\<lparr>b_status := ''CLOSED'', b_end_time := Some now\<rparr>)"
    by (simp_all add: map_of_update_same)
next
  assume "(k, task) \<in> set (b_tasks board) \<and> t_status task \<noteq> ''COMPLETE''"
  with close_board_incomplete [OF assms(1)]
  show "isl (fst (close_board now (Some bid) boards))"
    and "snd (close_board now (Some bid) boards) = boards"
    by blast+
qed

theorem close_board_zero_tasks_or_incomplete_witness:
  "map_of boards1 ''1'' = Some (sprint ''Sprint1'' ''OPEN'' ''t1'' None [])
   \<and> fst (close_board ''t2'' (Some ''1'') boards1) = Inr ''1''
   \<and> map_of (snd (close_board ''t2'' (Some ''1'') boards1)) ''1'' =
       Some (sprint ''Sprint1'' ''CLOSED'' ''t1'' (Some ''t2'') [])
   \<and> map_of boards2 ''1'' = Some (sprint ''Sprint1'' ''OPEN'' ''t1'' None [(''1'', job ''T1'' ''OPEN'' ''t2'')])
   \<and> isl (fst (close_board ''t3'' (Some ''1'') boards2))
   \<and> snd (close_board ''t3'' (Some ''1'') boards2) = boards2"
proof -
  let ?empty = "sprint ''Sprint1'' ''OPEN'' ''t1'' None []"
  let ?busy = "sprint ''Sprint1'' ''OPEN'' ''t1'' None [(''1'', job ''T1'' ''OPEN'' ''t2'')]"
  have m1: "map_of boards1 ''1'' = Some ?empty" by (simp add: boards1_eq)
  have m2: "map_of boards2 ''1'' = Some ?busy" by (simp add: boards2_eq)
  have n: "''1'' \<noteq> []" by simp
  have e: "b_tasks ?empty = []" by (simp add: sprint_def)
  have i: "(''1'', job ''T1'' ''OPEN'' ''t2'') \<in> set (b_tasks ?busy)
           \<and> t_status (job ''T1'' ''OPEN'' ''t2'') \<noteq> ''COMPLETE''"
    by (simp add: sprint_def job_def)
  have c: "?empty\<lparr>b_status := ''CLOSED'', b_end_time := Some ''t2''\<rparr>
           = sprint ''Sprint1'' ''CLOSED'' ''t1'' (Some ''t2'') []"
    by (simp add: sprint_def)
  from close_board_zero_tasks_or_incomplete [OF m1 n, of "''t2''"] e c
  have 1: "fst (close_board ''t2'' (Some ''1'') boards1) = Inr ''1''
     \<and> map_of (snd (close_board ''t2'' (Some ''1'') boards1)) ''1'' =
         Some (sprint ''Sprint1'' ''CLOSED'' ''t1'' (Some ''t2'') [])"
    by simp
  from close_board_zero_tasks_or_incomplete
         [OF m2 n, of "''t3''" "''1''" "job ''T1'' ''OPEN'' ''t2''"] i
  have 2: "isl (fst (close_board ''t3'' (Some ''1'') boards2))
     \<and> snd (close_board ''t3'' (Some ''1'') boards2) = boards2"
    by blast
  from m1 1 m2 2 show ?thesis by blast
qed

text \<open>
  Claim C10. \<open>close_board\<close> never reads the status of the board. For every board that is
  stored under a non-empty identifier and whose tasks are all COMPLETE, it succeeds and
  stores the board with status CLOSED and the time of this call as \<^verbatim>\<open>end_time\<close>, whatever
  the status and the \<^verbatim>\<open>end_time\<close> were: closing a CLOSED board again succeeds and replaces
  its \<^verbatim>\<open>end_time\<close>.
\<close>

theorem close_board_again:
  assumes "map_of boards bid = Some board" and "bid \<noteq> []"
    and "list_all (\<lambda>task. t_status task = ''COMPLETE'') (map snd (b_tasks board))"
  shows "fst (close_board now (Some bid) boards) = Inr bid
       \<and> map_of (snd (close_board now (Some bid) boards)) bid =
           Some (board\<lparr>b_status := ''CLOSED'', b_end_time := Some now\<rparr>)"
  using close_board_complete [OF assms] by (simp add: map_of_update_same)

theorem close_board_again_witness:
  "map_of boards4 ''1'' =
     Some (sprint ''Sprint1'' ''CLOSED'' ''t1'' (Some ''t4'') [(''1'', job ''T1'' ''COMPLETE'' ''t2'')])
   \<and> fst (close_board ''t5'' (Some ''1'') boards4) = Inr ''1''
   \<and> map_of (snd (close_board ''t5'' (Some ''1'') boards4)) ''1'' =
       Some (sprint ''Sprint1'' ''CLOSED'' ''t1'' (Some ''t5'') [(''1'', job ''T1'' ''COMPLETE'' ''t2'')])"
proof -
  let ?closed = "sprint ''Sprint1'' ''CLOSED'' ''t1'' (Some ''t4'') [(''1'', job ''T1'' ''COMPLETE'' ''t2'')]"
  have m: "map_of boards4 ''1'' = Some ?closed" by (simp add: boards4_eq)
  have n: "''1'' \<noteq> []" by simp
  have a: "list_all (\<lambda>task. t_status task = ''COMPLETE'') (map snd (b_tasks ?closed))"
    by (simp add: sprint_def job_def)
  have c: "?closed\<lparr>b_status := ''CLOSED'', b_end_time := Some ''t5''\<rparr>
           = sprint ''Sprint1'' ''CLOSED'' ''t1'' (Some ''t5'') [(''1'', job ''T1'' ''COMPLETE'' ''t2'')]"
    by (simp add: sprint_def)
  from close_board_again [OF m n a, of "''t5''"] m c show ?thesis by simp
qed

section \<open>Adding a task\<close>

lemma add_task_not_open:
  assumes "map_of boards bid = Some board" and "b_status board \<noteq> ''OPEN''"
  shows "isl (fst (add_task now title description user_id (Some bid) boards))
       \<and> snd (add_task now title description user_id (Some bid) boards) = boards"
  using assms
  by (cases "(now, title, description, user_id, Some bid, boards)" rule: add_task.cases)
     (auto split: if_splits option.splits simp: Let_def)

lemma add_task_duplicate:
  assumes "map_of boards bid = Some board" and "(k, task) \<in> set (b_tasks board)"
    and "t_title task = title"
  shows "isl (fst (add_task now (Some title) description user_id (Some bid) boards))
       \<and> snd (add_task now (Some title) description user_id (Some bid) boards) = boards"
  using assms
  by (cases "(now, Some title, description, user_id, Some bid, boards)" rule: add_task.cases)
     (auto split: if_splits option.splits simp: Let_def list_ex_snd)

lemma add_task_success:
  assumes "add_task now title description user_id board_id boards = (Inr tid, boards')"
  shows "\<exists>bid board board' task.
       board_id = Some bid \<and> map_of boards bid = Some board \<and> b_status board = ''OPEN''
     \<and> map_of boards' bid = Some board'
     \<and> map_of (b_tasks board') tid = Some task
     \<and> t_status task = ''OPEN'' \<and> title = Some (t_title task)
     \<and> (\<forall>k. k \<noteq> tid \<longrightarrow> map_of (b_tasks board') k = map_of (b_tasks board) k)
     \<and> (tasks_counted boards \<longrightarrow> map_of (b_tasks board) tid = None)"
proof (cases "(now, title, description, user_id, board_id, boards)" rule: add_task.cases)
  case (1 now' ttl dsc usr bid boards0)
  with assms obtain board where m: "map_of boards bid = Some board"
    and o: "b_status board = ''OPEN''"
    and t: "tid = str_nat (Suc (length (b_tasks board)))"
    and e: "boards' = AList.update bid
              (board\<lparr>b_tasks := AList.update tid
                 \<lparr>t_title = ttl, t_description = dsc, t_user_id = usr, t_status = ''OPEN'',
                  t_creation_time = now\<rparr> (b_tasks board)\<rparr>) boards"
    by (auto simp: Let_def split: if_splits option.splits)
  have "map_of (b_tasks board) tid = None" if "tasks_counted boards"
  proof -
    from that m have "counted (b_tasks board)"
      unfolding tasks_counted_def by (rule list_all_lookup)
    then have "tid \<notin> fst ` set (b_tasks board)" unfolding t by (rule counted_fresh)
    then show ?thesis by (simp add: map_of_eq_None_iff)
  qed
  with 1 m o e show ?thesis by (simp add: update_conv')
qed (use assms in auto)

text \<open>
  Claim C7. \<open>add_task\<close> raises, and leaves the collection as it was, when the status of
  the board is not OPEN, and when a task of the board has the title of the request. When it
  succeeds, the board was OPEN, the task is stored under the returned identifier with the
  title of the request and status OPEN, and every other task identifier of the board maps
  to what it mapped to before; in a collection that the operations produced, the returned
  identifier is a new one, so no task of the board is replaced.
\<close>

theorem add_task_open_board_fresh_title:
  "(map_of boards bid = Some board \<and> b_status board \<noteq> ''OPEN'' \<longrightarrow>
      isl (fst (add_task now title description user_id (Some bid) boards)) \<and>
      snd (add_task now title description user_id (Some bid) boards) = boards)
   \<and> (map_of boards bid = Some board \<and> (k, task) \<in> set (b_tasks board) \<longrightarrow>
      isl (fst (add_task now (Some (t_title task)) description user_id (Some bid) boards)) \<and>
      snd (add_task now (Some (t_title task)) description user_id (Some bid) boards) = boards)
   \<and> (add_task now title description user_id board_id boards = (Inr tid, boards') \<longrightarrow>
      (\<exists>bid' board0 board' task'.
          board_id = Some bid' \<and> map_of boards bid' = Some board0 \<and> b_status board0 = ''OPEN''
        \<and> map_of boards' bid' = Some board'
        \<and> map_of (b_tasks board') tid = Some task'
        \<and> t_status task' = ''OPEN'' \<and> title = Some (t_title task')
        \<and> (\<forall>j. j \<noteq> tid \<longrightarrow> map_of (b_tasks board') j = map_of (b_tasks board0) j)
        \<and> (boards_reachable boards \<longrightarrow> map_of (b_tasks board0) tid = None)))"
proof (intro conjI impI)
  assume "map_of boards bid = Some board \<and> b_status board \<noteq> ''OPEN''"
  then have m: "map_of boards bid = Some board" and s: "b_status board \<noteq> ''OPEN''" by simp_all
  from add_task_not_open [OF m s]
  show "isl (fst (add_task now title description user_id (Some bid) boards))"
    and "snd (add_task now title description user_id (Some bid) boards) = boards"
    by simp_all
next
  assume "map_of boards bid = Some board \<and> (k, task) \<in> set (b_tasks board)"
  then have m: "map_of boards bid = Some board" and t: "(k, task) \<in> set (b_tasks board)"
    by simp_all
  from add_task_duplicate [OF m t refl]
  show "isl (fst (add_task now (Some (t_title task)) description user_id (Some bid) boards))"
    and "snd (add_task now (Some (t_title task)) description user_id (Some bid) boards) = boards"
    by simp_all
next
  assume "add_task now title description user_id board_id boards = (Inr tid, boards')"
  from add_task_success [OF this]
  obtain bid' board0 board' task' where
    "board_id = Some bid'" "map_of boards bid' = Some board0" "b_status board0 = ''OPEN''"
    "map_of boards' bid' = Some board'" "map_of (b_tasks board') tid = Some task'"
    "t_status task' = ''OPEN''" "title = Some (t_title task')"
    "\<forall>j. j \<noteq> tid \<longrightarrow> map_of (b_tasks board') j = map_of (b_tasks board0) j"
    "tasks_counted boards \<longrightarrow> map_of (b_tasks board0) tid = None"
    by blast
  moreover from this(9) boards_reachable_tasks_counted [of boards]
  have "boards_reachable boards \<longrightarrow> map_of (b_tasks board0) tid = None" by blast
  ultimately show "\<exists>bid' board0 board' task'.
          board_id = Some bid' \<and> map_of boards bid' = Some board0 \<and> b_status board0 = ''OPEN''
        \<and> map_of boards' bid' = Some board'
        \<and> map_of (b_tasks board') tid = Some task'
        \<and> t_status task' = ''OPEN'' \<and> title = Some (t_title task')
        \<and> (\<forall>j. j \<noteq> tid \<longrightarrow> map_of (b_tasks board') j = map_of (b_tasks board0) j)
        \<and> (boards_reachable boards \<longrightarrow> map_of (b_tasks board0) tid = None)"
    by blast
qed

theorem add_task_open_board_fresh_title_witness:
  "map_of boards4 ''1'' =
     Some (sprint ''Sprint1'' ''CLOSED'' ''t1'' (Some ''t4'') [(''1'', job ''T1'' ''COMPLETE'' ''t2'')])
   \<and> isl (fst (add_task ''t5'' (Some ''T2'') (Some ''d'') (Some ''1'') (Some ''1'') boards4))
   \<and> snd (add_task ''t5'' (Some ''T2'') (Some ''d'') (Some ''1'') (Some ''1'') boards4) = boards4
   \<and> map_of boards2 ''1'' =
       Some (sprint ''Sprint1'' ''OPEN'' ''t1'' None [(''1'', job ''T1'' ''OPEN'' ''t2'')])
   \<and> isl (fst (add_task ''t3'' (Some ''T1'') (Some ''d'') (Some ''1'') (Some ''1'') boards2))
   \<and> snd (add_task ''t3'' (Some ''T1'') (Some ''d'') (Some ''1'') (Some ''1'') boards2) = boards2
   \<and> boards_reachable boards1
   \<and> add_task ''t2'' (Some ''T1'') (Some ''d'') (Some ''1'') (Some ''1'') boards1 = (Inr ''1'', boards2)
   \<and> (\<exists>board0 board' task'.
          map_of boards1 ''1'' = Some board0 \<and> b_status board0 = ''OPEN''
        \<and> map_of boards2 ''1'' = Some board'
        \<and> map_of (b_tasks board') ''1'' = Some task'
        \<and> t_status task' = ''OPEN'' \<and> t_title task' = ''T1''
        \<and> map_of (b_tasks board0) ''1'' = None)"
proof -
  let ?closed = "sprint ''Sprint1'' ''CLOSED'' ''t1'' (Some ''t4'') [(''1'', job ''T1'' ''COMPLETE'' ''t2'')]"
  let ?busy = "sprint ''Sprint1'' ''OPEN'' ''t1'' None [(''1'', job ''T1'' ''OPEN'' ''t2'')]"
  have m4: "map_of boards4 ''1'' = Some ?closed" by (simp add: boards4_eq)
  have s4: "b_status ?closed \<noteq> ''OPEN''" by (simp add: sprint_def)
  have m2: "map_of boards2 ''1'' = Some ?busy" by (simp add: boards2_eq)
  have t2: "(''1'', job ''T1'' ''OPEN'' ''t2'') \<in> set (b_tasks ?busy)" by (simp add: sprint_def)
  have tt: "t_title (job ''T1'' ''OPEN'' ''t2'') = ''T1''" by (simp add: job_def)
  have "boards_reachable (snd (create_board ''t1'' (Some ''Sprint1'') (Some ''d'') (Some ''1'') []))"
    by (intro boards_reachable.intros)
  then have r: "boards_reachable boards1" by (simp only: boards1_def)
  have a: "add_task ''t2'' (Some ''T1'') (Some ''d'') (Some ''1'') (Some ''1'') boards1
           = (Inr ''1'', boards2)"
    by (simp add: boards2_eq boards1_eq sprint_def job_def str_nat_1 Let_def)
  note closed =
    add_task_open_board_fresh_title
      [where boards = boards4 and bid = "''1''" and board = ?closed and now = "''t5''"
         and title = "Some ''T2''" and description = "Some ''d''" and user_id = "Some ''1''",
       THEN conjunct1, THEN mp, OF conjI [OF m4 s4]]
  note duplicate =
    add_task_open_board_fresh_title
      [where boards = boards2 and bid = "''1''" and board = ?busy and now = "''t3''"
         and k = "''1''" and task = "job ''T1'' ''OPEN'' ''t2''"
         and description = "Some ''d''" and user_id = "Some ''1''",
       THEN conjunct2, THEN conjunct1, THEN mp, OF conjI [OF m2 t2]]
  note added =
    add_task_open_board_fresh_title
      [where boards = boards1 and now = "''t2''" and title = "Some ''T1''"
         and description = "Some ''d''" and user_id = "Some ''1''" and board_id = "Some ''1''"
         and tid = "''1''" and boards' = boards2,
       THEN conjunct2, THEN conjunct2, THEN mp, OF a]
  from added r have e: "\<exists>board0 board' task'.
          map_of boards1 ''1'' = Some board0 \<and> b_status board0 = ''OPEN''
        \<and> map_of boards2 ''1'' = Some board'
        \<and> map_of (b_tasks board') ''1'' = Some task'
        \<and> t_status task' = ''OPEN'' \<and> t_title task' = ''T1''
        \<and> map_of (b_tasks board0) ''1'' = None"
    by (elim exE conjE) force
  from m4 closed m2 duplicate [unfolded tt] r a e show ?thesis by blast
qed

section \<open>Setting the status of a task\<close>





section \<open>Members of a team\<close>

lemma add_users_once:
  assumes "lists_set set_order" and "tid \<noteq> []" and "length users \<le> 50"
    and "map_of teams tid = Some team" and "map_of team ''users'' = Some (TList members)"
  shows "fst (add_users_to_team set_order (Some tid) users teams) = Inr tid
     \<and> map_of (snd (add_users_to_team set_order (Some tid) users teams)) tid =
         Some (AList.update ''users'' (TList (set_order (members @ users))) team)
     \<and> map_of (AList.update ''users'' (TList (set_order (members @ users))) team) ''users'' =
         Some (TList (set_order (members @ users)))
     \<and> distinct (set_order (members @ users))
     \<and> set (set_order (members @ users)) = set members \<union> set users
     \<and> length (set_order (members @ users)) = card (set members \<union> set users)"
proof -
  from assms(1) have d: "distinct (set_order (members @ users))"
    and s: "set (set_order (members @ users)) = set members \<union> set users"
    by (simp_all add: lists_set_def)
  from d have "length (set_order (members @ users)) = card (set (set_order (members @ users)))"
    by (simp add: distinct_card)
  with s have "length (set_order (members @ users)) = card (set members \<union> set users)" by simp
  with d s assms(2-5) show ?thesis
    by (simp add: add_users_to_team_def update_conv')
qed

lemma add_users_too_many:
  "length users > 50 \<Longrightarrow>
     isl (fst (add_users_to_team set_order team_id users teams)) \<and>
     snd (add_users_to_team set_order team_id users teams) = teams"
  by (simp add: add_users_to_team_def split: option.splits)

lemma add_users_twice:
  assumes "lists_set order1" and "lists_set order2" and "tid \<noteq> []"
    and "length added1 \<le> 50" and "length added2 \<le> 50"
    and "map_of teams tid = Some team" and "map_of team ''users'' = Some (TList members)"
  shows "\<exists>team' members'.
           map_of (snd (add_users_to_team order2 (Some tid) added2
                     (snd (add_users_to_team order1 (Some tid) added1 teams)))) tid = Some team'
         \<and> map_of team' ''users'' = Some (TList members')
         \<and> distinct members'
         \<and> set members' = set members \<union> set added1 \<union> set added2
         \<and> length members' = card (set members \<union> set added1 \<union> set added2)"
proof -
  let ?teams1 = "snd (add_users_to_team order1 (Some tid) added1 teams)"
  let ?members1 = "order1 (members @ added1)"
  let ?team1 = "AList.update ''users'' (TList ?members1) team"
  from add_users_once [OF assms(1,3,4,6,7)]
  have t1: "map_of ?teams1 tid = Some ?team1"
    and m1: "map_of ?team1 ''users'' = Some (TList ?members1)"
    and s1: "set ?members1 = set members \<union> set added1"
    by simp_all
  from add_users_once [OF assms(2,3,5) t1 m1] s1 show ?thesis
    by (intro exI) auto
qed

text \<open>
  Claim C9. \<open>add_users_to_team\<close> with a list of more than 50 entries raises and leaves
  the collection as it was. With at most 50 entries, for a team stored under a non-empty
  identifier whose \<^verbatim>\<open>users\<close> member is a list, it succeeds and stores as the members a
  list without repetitions whose elements are those of the old members and of the given
  list: its length is the number of elements of the union. After two such calls the members
  are the union of the old members and both lists, each once, so the size is that of the
  union and not the sum of the lengths.
\<close>

theorem add_users_to_team_union:
  "(length users > 50 \<longrightarrow>
      isl (fst (add_users_to_team set_order team_id users teams)) \<and>
      snd (add_users_to_team set_order team_id users teams) = teams)
   \<and> (lists_set set_order \<and> tid \<noteq> [] \<and> length users \<le> 50 \<and>
       map_of teams tid = Some team \<and> map_of team ''users'' = Some (TList members) \<longrightarrow>
      fst (add_users_to_team set_order (Some tid) users teams) = Inr tid \<and>
      (\<exists>team' members'.
          map_of (snd (add_users_to_team set_order (Some tid) users teams)) tid = Some team'
        \<and> map_of team' ''users'' = Some (TList members')
        \<and> distinct members'
        \<and> set members' = set members \<union> set users
        \<and> length members' = card (set members \<union> set users)))
   \<and> (lists_set set_order \<and> lists_set next_order \<and> tid \<noteq> [] \<and>
       length users \<le> 50 \<and> length more_users \<le> 50 \<and>
       map_of teams tid = Some team \<and> map_of team ''users'' = Some (TList members) \<longrightarrow>
      (\<exists>team' members'.
          map_of (snd (add_users_to_team next_order (Some tid) more_users
                    (snd (add_users_to_team set_order (Some tid) users teams)))) tid = Some team'
        \<and> map_of team' ''users'' = Some (TList members')
        \<and> distinct members'
        \<and> set members' = set members \<union> set users \<union> set more_users
        \<and> length members' = card (set members \<union> set users \<union> set more_users)))"
proof (intro conjI)
  show "length users > 50 \<longrightarrow>
      isl (fst (add_users_to_team set_order team_id users teams)) \<and>
      snd (add_users_to_team set_order team_id users teams) = teams"
    by (rule impI) (rule add_users_too_many)
next
  show "lists_set set_order \<and> tid \<noteq> [] \<and> length users \<le> 50 \<and>
       map_of teams tid = Some team \<and> map_of team ''users'' = Some (TList members) \<longrightarrow>
      fst (add_users_to_team set_order (Some tid) users teams) = Inr tid \<and>
      (\<exists>team' members'.
          map_of (snd (add_users_to_team set_order (Some tid) users teams)) tid = Some team'
        \<and> map_of team' ''users'' = Some (TList members')
        \<and> distinct members'
        \<and> set members' = set members \<union> set users
        \<and> length members' = card (set members \<union> set users))"
  proof (rule impI, elim conjE)
    assume a: "lists_set set_order" "tid \<noteq> []" "length users \<le> 50"
      "map_of teams tid = Some team" "map_of team ''users'' = Some (TList members)"
    from add_users_once [OF a] show
      "fst (add_users_to_team set_order (Some tid) users teams) = Inr tid \<and>
      (\<exists>team' members'.
          map_of (snd (add_users_to_team set_order (Some tid) users teams)) tid = Some team'
        \<and> map_of team' ''users'' = Some (TList members')
        \<and> distinct members'
        \<and> set members' = set members \<union> set users
        \<and> length members' = card (set members \<union> set users))"
      by blast
  qed
next
  show "lists_set set_order \<and> lists_set next_order \<and> tid \<noteq> [] \<and>
       length users \<le> 50 \<and> length more_users \<le> 50 \<and>
       map_of teams tid = Some team \<and> map_of team ''users'' = Some (TList members) \<longrightarrow>
      (\<exists>team' members'.
          map_of (snd (add_users_to_team next_order (Some tid) more_users
                    (snd (add_users_to_team set_order (Some tid) users teams)))) tid = Some team'
        \<and> map_of team' ''users'' = Some (TList members')
        \<and> distinct members'
        \<and> set members' = set members \<union> set users \<union> set more_users
        \<and> length members' = card (set members \<union> set users \<union> set more_users))"
  proof (rule impI, elim conjE)
    assume a: "lists_set set_order" "lists_set next_order" "tid \<noteq> []"
      "length users \<le> 50" "length more_users \<le> 50"
      "map_of teams tid = Some team" "map_of team ''users'' = Some (TList members)"
    from add_users_twice [OF a] show
      "\<exists>team' members'.
          map_of (snd (add_users_to_team next_order (Some tid) more_users
                    (snd (add_users_to_team set_order (Some tid) users teams)))) tid = Some team'
        \<and> map_of team' ''users'' = Some (TList members')
        \<and> distinct members'
        \<and> set members' = set members \<union> set users \<union> set more_users
        \<and> length members' = card (set members \<union> set users \<union> set more_users)" .
  qed
qed

theorem add_users_to_team_union_witness:
  "length (replicate 51 ''9'') > 50
   \<and> isl (fst (add_users_to_team remdups (Some ''1'') (replicate 51 ''9'') teams2))
   \<and> snd (add_users_to_team remdups (Some ''1'') (replicate 51 ''9'') teams2) = teams2
   \<and> lists_set remdups \<and> lists_set (\<lambda>xs. rev (remdups xs))
   \<and> fst (add_users_to_team remdups (Some ''1'') [''1'', ''2''] teams2) = Inr ''1''
   \<and> (\<exists>team' members'.
          map_of (snd (add_users_to_team remdups (Some ''1'') [''1'', ''2''] teams2)) ''1'' = Some team'
        \<and> map_of team' ''users'' = Some (TList members')
        \<and> distinct members'
        \<and> set members' = {''1'', ''2''}
        \<and> length members' = 2)
   \<and> (\<exists>team' members'.
          map_of (snd (add_users_to_team (\<lambda>xs. rev (remdups xs)) (Some ''1'') [''2'', ''3'']
                    (snd (add_users_to_team remdups (Some ''1'') [''1'', ''2''] teams2)))) ''1'' = Some team'
        \<and> map_of team' ''users'' = Some (TList members')
        \<and> distinct members'
        \<and> set members' = {''1'', ''2'', ''3''}
        \<and> length members' = 3)"
proof -
  let ?core = "[(''name'', TStr ''core''), (''description'', TStr ''the core team''),
                (''admin'', TStr ''1''), (''creation_time'', TStr ''t1''),
                (''users'', TList [''1''])]"
  have many: "length (replicate 51 ''9'') > 50" by simp
  have o1: "lists_set remdups" by (simp add: lists_set_def)
  have o2: "lists_set (\<lambda>xs. rev (remdups xs))" by (simp add: lists_set_def)
  have n: "''1'' \<noteq> []" by simp
  have l1: "length [''1'', ''2''] \<le> 50" and l2: "length [''2'', ''3''] \<le> 50" by simp_all
  have m: "map_of teams2 ''1'' = Some ?core" by (simp add: teams2_eq)
  have u: "map_of ?core ''users'' = Some (TList [''1''])" by simp
  have c1: "set [''1''] \<union> set [''1'', ''2''] = {''1'', ''2''}" by auto
  have c2: "set [''1''] \<union> set [''1'', ''2''] \<union> set [''2'', ''3''] = {''1'', ''2'', ''3''}" by auto
  have k1: "card {''1'', ''2''} = 2" by simp
  have k2: "card {''1'', ''2'', ''3''} = 3" by simp
  note too_many =
    add_users_to_team_union
      [where users = "replicate 51 ''9''" and set_order = remdups and team_id = "Some ''1''"
         and teams = teams2,
       THEN conjunct1, THEN mp, OF many]
  note once =
    add_users_to_team_union
      [where users = "[''1'', ''2'']" and set_order = remdups and tid = "''1''"
         and teams = teams2 and team = ?core and members = "[''1'']",
       THEN conjunct2, THEN conjunct1, THEN mp,
       OF conjI [OF o1 conjI [OF n conjI [OF l1 conjI [OF m u]]]], unfolded c1 k1]
  note twice =
    add_users_to_team_union
      [where users = "[''1'', ''2'']" and set_order = remdups and tid = "''1''"
         and next_order = "\<lambda>xs. rev (remdups xs)" and more_users = "[''2'', ''3'']"
         and teams = teams2 and team = ?core and members = "[''1'']",
       THEN conjunct2, THEN conjunct2, THEN mp,
       OF conjI [OF o1 conjI [OF o2 conjI [OF n conjI [OF l1 conjI [OF l2 conjI [OF m u]]]]]],
       unfolded c2 k2]
  from many too_many o1 o2 once twice show ?thesis by blast
qed

section \<open>Listing the members of a team\<close>

lemma list_team_users_members:
  assumes "tid \<noteq> []" and "map_of teams tid = Some team" and "map_of team ''users'' = Some members"
  shows "list_team_users (Some tid) teams = (if iter members = [] then Inr [] else Inl TypeError)"
proof (cases "iter members")
  case Nil
  with assms show ?thesis by (simp add: list_team_users_def)
next
  case (Cons user_id rest)
  have "views team_user (user_id # rest) = Inl TypeError"
    by (simp add: team_user_def describe_user_of_class_def)
  with Cons assms show ?thesis by (simp add: list_team_users_def)
qed

text \<open>
  Claim C3 says that \<open>list_team_users\<close> returns the identifier, name and display name of
  every member. The code does not: the call that is to resolve a member raises in the first
  turn of the loop, so \<open>list_team_users\<close> raises for every team that has a member, also
  when the member is a stored user, and returns the empty list for a team without members.
  Here user 1 is stored and is the one member of team 1.
\<close>

theorem list_team_users_raises_for_member:
  "map_of users1 ''1'' =
     Some [(''name'', ''alice''), (''display_name'', ''Alice A''), (''creation_time'', ''t1'')]
   \<and> add_users_to_team remdups (Some ''1'') [''1''] teams1 = (Inr ''1'', teams2)
   \<and> list_team_users (Some ''1'') teams1 = Inr []
   \<and> list_team_users (Some ''1'') teams2 = Inl TypeError"
  by (simp add: users1_eq teams1_eq teams2_eq add_users_to_team_def list_team_users_def iter_def
        team_user_def describe_user_of_class_def)

section \<open>Names\<close>

lemma unique_names_create_user:
  "unique_names users \<Longrightarrow> unique_names (snd (create_user now name display_name users))"
proof (cases "fst (create_user now name display_name users)")
  case (Inl e)
  then have "snd (create_user now name display_name users) = users"
    by (cases "(now, name, display_name, users)" rule: create_user.cases)
       (auto simp: Let_def split: if_splits sum.splits bool.splits)
  then show "unique_names users \<Longrightarrow> ?thesis" by simp
next
  case (Inr i)
  assume u: "unique_names users"
  from Inr obtain uname dname where
    a: "any_field_eq ''name'' uname (map snd users) = Inr False"
    and s: "snd (create_user now name display_name users) =
              AList.update (str_nat (Suc (length users)))
                [(''name'', uname), (''display_name'', dname), (''creation_time'', now)] users"
    by (cases "(now, name, display_name, users)" rule: create_user.cases)
       (auto simp: Let_def split: if_splits sum.splits bool.splits)
  from any_field_eq_miss [OF a]
  have "\<forall>p\<in>set users. map_of (snd p) ''name''
          \<noteq> map_of [(''name'', uname), (''display_name'', dname), (''creation_time'', now)] ''name''"
    by auto
  with u show ?thesis
    unfolding s unique_names_def names_def by (intro distinct_update_new)
qed

lemma unique_names_create_team:
  "unique_names teams \<Longrightarrow> unique_names (snd (create_team now name description admin teams))"
proof (cases "fst (create_team now name description admin teams)")
  case (Inl e)
  then have "snd (create_team now name description admin teams) = teams"
    by (cases "(now, name, description, admin, teams)" rule: create_team.cases)
       (auto simp: Let_def split: if_splits sum.splits bool.splits)
  then show "unique_names teams \<Longrightarrow> ?thesis" by simp
next
  case (Inr i)
  assume u: "unique_names teams"
  from Inr obtain tname dsc adm where
    a: "any_field_eq ''name'' (TStr tname) (map snd teams) = Inr False"
    and s: "snd (create_team now name description admin teams) =
              AList.update (str_nat (Suc (length teams)))
                [(''name'', TStr tname), (''description'', TStr dsc), (''admin'', TStr adm),
                 (''creation_time'', TStr now), (''users'', TList [])] teams"
    by (cases "(now, name, description, admin, teams)" rule: create_team.cases)
       (auto simp: Let_def split: if_splits sum.splits bool.splits)
  from any_field_eq_miss [OF a]
  have "\<forall>p\<in>set teams. map_of (snd p) ''name''
          \<noteq> map_of [(''name'', TStr tname), (''description'', TStr dsc), (''admin'', TStr adm),
                     (''creation_time'', TStr now), (''users'', TList [])] ''name''"
    by auto
  with u show ?thesis
    unfolding s unique_names_def names_def by (intro distinct_update_new)
qed

lemma unique_names_update_team:
  assumes "unique_names teams" and "distinct (map fst team_updates)"
  shows "unique_names (snd (update_team team_id team_updates teams))"
proof (cases "fst (update_team team_id team_updates teams)")
  case (Inl e)
  then have "snd (update_team team_id team_updates teams) = teams"
    by (auto simp: update_team_def split: option.splits if_splits sum.splits bool.splits)
  with assms show ?thesis by simp
next
  case (Inr i)
  let ?g = "\<lambda>r::team. map_of r ''name''"
  let ?other = "map (\<lambda>(k, v). (k, TStr v)) team_updates"
  from Inr obtain tid team where m: "map_of teams tid = Some team"
    and t: "name_taken team_updates team teams = Inr False"
    and s: "snd (update_team team_id team_updates teams) =
              AList.update tid (dict_update team ?other) teams"
    by (auto simp: update_team_def split: option.splits if_splits sum.splits bool.splits)
  have d: "distinct (map fst ?other)" using assms(2) by (simp add: comp_def case_prod_unfold)
  have mo: "map_of ?other ''name'' = map_option TStr (map_of team_updates ''name'')"
    by (simp add: map_of_map)
  have "\<forall>p\<in>set teams. ?g (snd p) \<noteq> ?g team \<longrightarrow> ?g (snd p) \<noteq> ?g (dict_update team ?other)"
  proof (cases "map_of team_updates ''name''")
    case None
    with mo d show ?thesis by (simp add: map_of_dict_update)
  next
    case (Some new_name)
    with mo d have g: "?g (dict_update team ?other) = Some (TStr new_name)"
      by (simp add: map_of_dict_update)
    from t Some have "any_field_eq ''name'' (TStr new_name)
            (filter (\<lambda>r. \<not> dict_eq r team) (map snd teams)) = Inr False"
      by (simp add: name_taken_def)
    from any_field_eq_miss [OF this]
    have f: "\<forall>r\<in>set (map snd teams). \<not> dict_eq r team \<longrightarrow> ?g r \<noteq> Some (TStr new_name)"
      by simp
    show ?thesis
    proof (intro ballI impI)
      fix p assume p: "p \<in> set teams" and ne: "?g (snd p) \<noteq> ?g team"
      show "?g (snd p) \<noteq> ?g (dict_update team ?other)"
      proof (cases "dict_eq (snd p) team")
        case True
        with ne have "?g (snd p) = None"
          by (cases "?g (snd p)") (auto dest: dict_eq_same_value)
        with g show ?thesis by simp
      next
        case False
        with f p g show ?thesis by simp
      qed
    qed
  qed
  with assms(1) m show ?thesis
    unfolding s unique_names_def names_def by (intro distinct_update_old)
qed

text \<open>
  Claim C4 says that the names of the users stay unique after every successful operation,
  \<open>update_user\<close> included. \<open>create_user\<close>, \<open>create_team\<close> and \<open>update_team\<close> keep
  names unique (the three lemmas above), since each compares the new name with the stored
  ones. \<open>update_user\<close> makes no such comparison: it accepts a \<^verbatim>\<open>name\<close> member, of which
  its docstring says that it cannot be updated, and gives user 2 the name of user 1.
\<close>

theorem update_user_duplicates_name:
  "unique_names users2
   \<and> update_user (Some ''2'') [(''name'', ''alice'')] users2 =
       (Inr ''2'',
        [(''1'', [(''name'', ''alice''), (''display_name'', ''Alice A''), (''creation_time'', ''t1'')]),
         (''2'', [(''name'', ''alice''), (''display_name'', ''Bob B''), (''creation_time'', ''t2'')])])
   \<and> \<not> unique_names (snd (update_user (Some ''2'') [(''name'', ''alice'')] users2))"
  by (simp add: users2_eq update_user_def too_long_def dict_update_def unique_names_def names_def)

section \<open>Closed boards and their tasks\<close>












end
